theory Spec2Isabelle
  imports Complex_Main "HOL-Library.Char_ord" "HOL-Library.List_Lexorder"
    "HOL-Library.Product_Lexorder"
begin

section \<open>Data model\<close>

text \<open>
  The dashboard script \<^verbatim>\<open>app.py\<close> reads an uploaded table into a pandas
  DataFrame and works on it statement by statement. A DataFrame is modelled as the list of
  its rows in order, each with its index label; a Series (one column, or a boolean mask) is
  the list of its values, each with its index label. The labels matter: pandas aligns two
  Series on their labels before \<^verbatim>\<open>&\<close>, and re-indexes a boolean Series key on
  the labels of the frame it selects from.

  A row has the columns the script reads. The type of the \<^verbatim>\<open>Order Date\<close> column
  is a parameter: text in the uploaded file, a timestamp or NaT after
  \<^verbatim>\<open>pd.to_datetime\<close>, a timestamp after \<^verbatim>\<open>dropna\<close>. The other cells
  are present, as the data model requires. A numeric cell holds its value as a real number; for
  \<^verbatim>\<open>Sales\<close> and \<^verbatim>\<open>Profit\<close> that value is a float64 number. Sums are
  exact where a claim turns on a sign, an order or an empty table; where a claim turns on the
  value of a sum of decimal amounts, the additions are the rounded float64 additions of the
  section on float64 arithmetic.
\<close>

record 'd row =
  Order_Date :: 'd
  Region :: string
  State :: string
  City :: string
  Category :: string
  Sub_Category :: string
  Segment :: string
  Sales :: real
  Profit :: real
  Quantity :: int
  Order_ID :: string
  Customer_ID :: string
  Product_Name :: string

text \<open>A timestamp: year, month (1 to 12), day of the month, time within the day. The
  lexicographic order of the four components is the chronological order.\<close>

type_synonym timestamp = "nat \<times> nat \<times> nat \<times> nat"

type_synonym 'a series = "(nat \<times> 'a) list"

type_synonym 'd frame = "(nat \<times> 'd row) list"

datatype error = IndexingError

section \<open>The pandas operations the script uses\<close>

text \<open>\<^verbatim>\<open>df[name]\<close>: one column, with the index of the frame.\<close>

definition column :: "('d row \<Rightarrow> 'a) \<Rightarrow> 'd frame \<Rightarrow> 'a series" where
  "column f df = map (\<lambda>(i, r). (i, f r)) df"

text \<open>\<^verbatim>\<open>s.isin(values)\<close>.\<close>

definition isin :: "'a list \<Rightarrow> 'a series \<Rightarrow> bool series" where
  "isin vals s = map (\<lambda>(i, v). (i, v \<in> set vals)) s"

text \<open>\<^verbatim>\<open>s >= v\<close> and \<^verbatim>\<open>s <= v\<close> against a scalar.\<close>

definition series_ge :: "('a::linorder) series \<Rightarrow> 'a \<Rightarrow> bool series" where
  "series_ge s v = map (\<lambda>(i, x). (i, v \<le> x)) s"

definition series_le :: "('a::linorder) series \<Rightarrow> 'a \<Rightarrow> bool series" where
  "series_le s v = map (\<lambda>(i, x). (i, x \<le> v)) s"

text \<open>The value of a boolean Series at a label after alignment: a label the Series does not
  have gives NaN, which the logical operators fill with False.\<close>

definition lookup_fill :: "bool series \<Rightarrow> nat \<Rightarrow> bool" where
  "lookup_fill s i = (case map_of s i of None \<Rightarrow> False | Some b \<Rightarrow> b)"

text \<open>\<^verbatim>\<open>a & b\<close> on two boolean Series. With equal indexes the operation is
  elementwise. Otherwise both sides are aligned on the sorted union of their labels first.\<close>

definition series_and :: "bool series \<Rightarrow> bool series \<Rightarrow> bool series" where
  "series_and a b =
     (if map fst a = map fst b
      then map (\<lambda>((i, x), (j, y)). (i, x \<and> y)) (zip a b)
      else map (\<lambda>i. (i, lookup_fill a i \<and> lookup_fill b i))
             (sort (remdups (map fst a @ map fst b))))"

text \<open>\<^verbatim>\<open>df[key]\<close> with a boolean Series key. A key with the index of the frame
  selects by position. Any other key is re-indexed on the labels of the frame (the warning
  this gives is silenced by the script), and a label of the frame that the key does not have
  raises \<^verbatim>\<open>IndexingError\<close>.\<close>

definition getitem_bool :: "'d frame \<Rightarrow> bool series \<Rightarrow> error + 'd frame" where
  "getitem_bool df key =
     (if map fst key = map fst df
      then Inr (map fst (filter (\<lambda>(p, k). snd k) (zip df key)))
      else if list_ex (\<lambda>i. map_of key i = None) (map fst df) then Inl IndexingError
      else Inr (filter (\<lambda>(i, r). map_of key i = Some True) df))"

section \<open>Reading and preprocessing\<close>

text \<open>\<^verbatim>\<open>pd.read_csv\<close> and \<^verbatim>\<open>pd.read_excel\<close> number the rows of the file
  from 0.\<close>

definition read_table :: "'d row list \<Rightarrow> 'd frame" where
  "read_table rs = zip [0..<length rs] rs"

text \<open>A row with its \<^verbatim>\<open>Order Date\<close> cell replaced, the other cells kept.\<close>

definition with_order_date :: "'a row \<Rightarrow> 'b \<Rightarrow> 'b row" where
  "with_order_date r d =
     \<lparr>Order_Date = d, Region = Region r, State = State r, City = City r,
      Category = Category r, Sub_Category = Sub_Category r, Segment = Segment r,
      Sales = Sales r, Profit = Profit r, Quantity = Quantity r, Order_ID = Order_ID r,
      Customer_ID = Customer_ID r, Product_Name = Product_Name r\<rparr>"

text \<open>\<^verbatim>\<open>df["Order Date"] = pd.to_datetime(df["Order Date"], errors='coerce')\<close>:
  every cell is parsed; a cell that does not parse becomes NaT (\<open>None\<close>). The parser of
  pandas is a parameter: on a given column it is a fixed function of the cell.\<close>

definition to_datetime_coerce ::
  "(string \<Rightarrow> timestamp option) \<Rightarrow> string frame \<Rightarrow> timestamp option frame" where
  "to_datetime_coerce parse df =
     map (\<lambda>(i, r). (i, with_order_date r (parse (Order_Date r)))) df"

text \<open>\<^verbatim>\<open>df = df.dropna(subset=["Order Date"])\<close>: the rows whose date is NaT go;
  the column that is left has a timestamp in every cell.\<close>

fun dropna_order_date :: "timestamp option frame \<Rightarrow> timestamp frame" where
  "dropna_order_date [] = []"
| "dropna_order_date ((i, r) # df) =
     (case Order_Date r of
        None \<Rightarrow> dropna_order_date df
      | Some d \<Rightarrow> (i, with_order_date r d) # dropna_order_date df)"

definition preprocess :: "(string \<Rightarrow> timestamp option) \<Rightarrow> string frame \<Rightarrow> timestamp frame" where
  "preprocess parse df = dropna_order_date (to_datetime_coerce parse df)"

section \<open>Date range and location filters\<close>

text \<open>\<^verbatim>\<open>df = df[(df["Order Date"] >= date1) & (df["Order Date"] <= date2)].copy()\<close>\<close>

definition date_slice :: "timestamp \<Rightarrow> timestamp \<Rightarrow> timestamp frame \<Rightarrow> error + timestamp frame" where
  "date_slice date1 date2 df =
     getitem_bool df
       (series_and (series_ge (column Order_Date df) date1)
                   (series_le (column Order_Date df) date2))"

text \<open>The cascading tables \<^verbatim>\<open>df2\<close>, \<^verbatim>\<open>df3\<close> and \<^verbatim>\<open>df4\<close>. An empty
  selection list is falsy in Python.\<close>

definition df2 :: "string list \<Rightarrow> 'd frame \<Rightarrow> error + 'd frame" where
  "df2 region df =
     (if region = [] then Inr df
      else getitem_bool df (isin region (column Region df)))"

definition df3 :: "string list \<Rightarrow> 'd frame \<Rightarrow> error + 'd frame" where
  "df3 state d2 =
     (if state = [] then Inr d2
      else getitem_bool d2 (isin state (column State d2)))"

definition df4 :: "string list \<Rightarrow> 'd frame \<Rightarrow> error + 'd frame" where
  "df4 city d3 =
     (if city = [] then Inr d3
      else getitem_bool d3 (isin city (column City d3)))"

text \<open>The eight-branch construction of \<^verbatim>\<open>filtered_df\<close>, in the order of the
  script. The branches that select from \<^verbatim>\<open>df3\<close> with a mask over \<^verbatim>\<open>df\<close>
  are kept as written.\<close>

definition filter_branches ::
  "string list \<Rightarrow> string list \<Rightarrow> string list \<Rightarrow> 'd frame \<Rightarrow> 'd frame \<Rightarrow> error + 'd frame" where
  "filter_branches region state city df d3 =
     (if region = [] \<and> state = [] \<and> city = [] then Inr df
      else if state = [] \<and> city = [] then
        getitem_bool df (isin region (column Region df))
      else if region = [] \<and> city = [] then
        getitem_bool df (isin state (column State df))
      else if state \<noteq> [] \<and> city \<noteq> [] then
        getitem_bool d3 (series_and (isin state (column State df))
                                    (isin city (column City d3)))
      else if region \<noteq> [] \<and> city \<noteq> [] then
        getitem_bool d3 (series_and (isin region (column Region df))
                                    (isin city (column City d3)))
      else if region \<noteq> [] \<and> state \<noteq> [] then
        getitem_bool d3 (series_and (isin region (column Region df))
                                    (isin state (column State d3)))
      else if city \<noteq> [] then
        getitem_bool d3 (isin city (column City d3))
      else
        getitem_bool d3 (series_and (series_and (isin region (column Region d3))
                                                (isin state (column State d3)))
                                    (isin city (column City d3))))"

text \<open>The statements from \<^verbatim>\<open>df2\<close> to \<^verbatim>\<open>filtered_df\<close> in sequence; an
  exception in any of them ends the script.\<close>

definition filtered_df ::
  "string list \<Rightarrow> string list \<Rightarrow> string list \<Rightarrow> 'd frame \<Rightarrow> error + 'd frame" where
  "filtered_df region state city df =
     (case df2 region df of Inl e \<Rightarrow> Inl e | Inr d2 \<Rightarrow>
      case df3 state d2 of Inl e \<Rightarrow> Inl e | Inr d3 \<Rightarrow>
      case df4 city d3 of Inl e \<Rightarrow> Inl e | Inr d4 \<Rightarrow>
      filter_branches region state city df d3)"

text \<open>The simplification the specification allows: AND together only the constraints whose
  selection is not empty, against the date-sliced base table.\<close>

definition active_constraints ::
  "string list \<Rightarrow> string list \<Rightarrow> string list \<Rightarrow> ('d row \<Rightarrow> bool) list" where
  "active_constraints R S C =
     (if R = [] then [] else [\<lambda>r. Region r \<in> set R]) @
     (if S = [] then [] else [\<lambda>r. State r \<in> set S]) @
     (if C = [] then [] else [\<lambda>r. City r \<in> set C])"

definition spec_simplified_filter ::
  "string list \<Rightarrow> string list \<Rightarrow> string list \<Rightarrow> 'd frame \<Rightarrow> 'd frame" where
  "spec_simplified_filter R S C df =
     filter (\<lambda>(i, r). list_all (\<lambda>p. p r) (active_constraints R S C)) df"

section \<open>Key performance indicators\<close>

definition total_sales :: "'d frame \<Rightarrow> real" where
  "total_sales df = sum_list (map (\<lambda>(i, r). Sales r) df)"

definition total_profit :: "'d frame \<Rightarrow> real" where
  "total_profit df = sum_list (map (\<lambda>(i, r). Profit r) df)"

definition total_quantity :: "'d frame \<Rightarrow> int" where
  "total_quantity df = sum_list (map (\<lambda>(i, r). Quantity r) df)"

text \<open>\<^verbatim>\<open>(total_profit / total_sales * 100) if total_sales > 0 else 0\<close>\<close>

definition profit_margin :: "'d frame \<Rightarrow> real" where
  "profit_margin df =
     (if total_sales df > 0 then total_profit df / total_sales df * 100 else 0)"

text \<open>\<^verbatim>\<open>df.groupby(key)[val].sum()\<close>: one entry for each distinct key, in ascending
  order of the keys, with the sum of the values of the rows that have the key.\<close>

definition group_keys :: "('d row \<Rightarrow> 'k::linorder) \<Rightarrow> 'd frame \<Rightarrow> 'k list" where
  "group_keys key df = sort (remdups (map (\<lambda>(i, r). key r) df))"

definition groupby_sum ::
  "('d row \<Rightarrow> 'k::linorder) \<Rightarrow> ('d row \<Rightarrow> 'v::comm_monoid_add) \<Rightarrow> 'd frame \<Rightarrow> ('k \<times> 'v) list" where
  "groupby_sum key val df =
     map (\<lambda>k. (k, sum_list (map (\<lambda>(i, r). val r) (filter (\<lambda>(i, r). key r = k) df))))
       (group_keys key df)"

text \<open>A floating-point result that may be undefined: the mean of an empty Series is NaN, and
  numpy's division by zero gives NaN or an infinity with a warning, not an exception.\<close>

datatype float_result = Num real | NaN | PosInf | NegInf

definition series_mean :: "real list \<Rightarrow> float_result" where
  "series_mean xs = (if xs = [] then NaN else Num (sum_list xs / real (length xs)))"

definition np_divide :: "real \<Rightarrow> nat \<Rightarrow> float_result" where
  "np_divide x n =
     (if n = 0 then (if x = 0 then NaN else if x > 0 then PosInf else NegInf)
      else Num (x / real n))"

text \<open>\<^verbatim>\<open>filtered_df.groupby("Order ID")["Sales"].sum().mean() if "Order ID" in
  filtered_df.columns else total_sales / len(filtered_df)\<close>. Whether the uploaded table has
  the column is a parameter.\<close>

definition avg_order_value :: "bool \<Rightarrow> 'd frame \<Rightarrow> float_result" where
  "avg_order_value has_order_id df =
     (if has_order_id then series_mean (map snd (groupby_sum Order_ID Sales df))
      else np_divide (total_sales df) (length df))"

text \<open>\<^verbatim>\<open>filtered_df["Customer ID"].nunique() if "Customer ID" in filtered_df.columns
  else len(filtered_df)\<close>\<close>

definition unique_customers :: "bool \<Rightarrow> 'd frame \<Rightarrow> nat" where
  "unique_customers has_customer_id df =
     (if has_customer_id then length (remdups (map (\<lambda>(i, r). Customer_ID r) df))
      else length df)"

subsection \<open>Float64 arithmetic\<close>

text \<open>Rounding to the nearest integer, a tie going to the even neighbour.\<close>

definition round_half_even :: "real \<Rightarrow> int" where
  "round_half_even x =
     (let f = \<lfloor>x\<rfloor>; d = x - of_int f
      in if d < 1 / 2 then f else if 1 / 2 < d then f + 1 else if even f then f else f + 1)"

text \<open>The spacing of the float64 numbers around a magnitude \<open>a\<close>. Below \<open>2 ^ 53\<close> it
  is \<open>1 / 2 ^ n\<close> for the least \<open>n\<close> that brings \<open>a\<close> up to 53 bits, and at most
  \<open>1 / 2 ^ 1074\<close> (the subnormal numbers); from \<open>2 ^ 53\<close> on it is \<open>2 ^ n\<close> for the
  least \<open>n\<close> that brings \<open>a\<close> down to 53 bits.\<close>

function f64_frac_bits :: "nat \<Rightarrow> real \<Rightarrow> nat" where
  "f64_frac_bits n a =
     (if 1074 \<le> n \<or> 2 ^ 53 \<le> a * 2 ^ Suc n then n else f64_frac_bits (Suc n) a)"
  by pat_completeness auto
termination
  by (relation "measure (\<lambda>(n, a). 1074 - n)") auto

function f64_int_bits :: "nat \<Rightarrow> real \<Rightarrow> nat" where
  "f64_int_bits n a =
     (if 971 \<le> n \<or> a < 2 ^ (53 + n) then n else f64_int_bits (Suc n) a)"
  by pat_completeness auto
termination
  by (relation "measure (\<lambda>(n, a). 971 - n)") auto

declare f64_frac_bits.simps [simp del] f64_int_bits.simps [simp del]

definition f64_quantum :: "real \<Rightarrow> real" where
  "f64_quantum a =
     (if a < 2 ^ 53 then 1 / 2 ^ f64_frac_bits 0 a else 2 ^ f64_int_bits 1 a)"

text \<open>The float64 number nearest to a real, ties to even; a result of magnitude
  \<open>2 ^ 1024\<close> or more is an infinity.\<close>

definition round_f64 :: "real \<Rightarrow> float_result" where
  "round_f64 x =
     (let q = f64_quantum \<bar>x\<bar>; y = of_int (round_half_even (x / q)) * q
      in if 2 ^ 1024 \<le> y then PosInf else if y \<le> - (2 ^ 1024) then NegInf else Num y)"

text \<open>Float64 addition: the exact sum, rounded; NaN and the infinities as in IEEE 754.\<close>

fun f64_add :: "float_result \<Rightarrow> float_result \<Rightarrow> float_result" where
  "f64_add (Num a) (Num b) = round_f64 (a + b)"
| "f64_add NaN y = NaN"
| "f64_add x NaN = NaN"
| "f64_add PosInf NegInf = NaN"
| "f64_add NegInf PosInf = NaN"
| "f64_add PosInf y = PosInf"
| "f64_add x PosInf = PosInf"
| "f64_add NegInf y = NegInf"
| "f64_add x NegInf = NegInf"

text \<open>\<^verbatim>\<open>.sum()\<close> on float64 values: they are added one after the other, in row
  order, every addition rounded. The libraries refine this on longer inputs: numpy adds a column
  of eight or more values in blocks, and pandas carries a compensation term through a group sum.
  Neither changes a sum in which no addition rounds, a column of fewer than eight values, or a
  group of at most two.\<close>

definition f64_total :: "float_result list \<Rightarrow> float_result" where
  "f64_total vs = foldl f64_add (Num 0) vs"


section \<open>Aggregate tables\<close>

text \<open>\<^verbatim>\<open>filtered_df.groupby(by=["Category"], as_index=False)["Sales"].sum()\<close>: one
  row for each category, in ascending order of the names, with the float64 sum of the Sales of
  its rows.\<close>

definition category_df :: "'d frame \<Rightarrow> (string \<times> float_result) list" where
  "category_df df =
     map (\<lambda>k. (k, f64_total (map (\<lambda>(i, r). Num (Sales r)) (filter (\<lambda>(i, r). Category r = k) df))))
       (group_keys Category df)"

definition segment_df :: "'d frame \<Rightarrow> (string \<times> real) list" where
  "segment_df df = groupby_sum Segment Sales df"

text \<open>\<^verbatim>\<open>sort_values(by="Sales", ascending=False)\<close> with the default sort kind, which
  is not a stable one: the rows come out in descending order of the values, and the order among
  rows with equal values is whatever the sorting routine of the installed numpy leaves. That
  order is a parameter here, a ranking of the rows that decides among equal values; every order
  of the equal rows is the result for some ranking (\<open>sort_values_desc_any_tie_order\<close>
  below).\<close>

definition sort_values_desc :: "('k \<times> real \<Rightarrow> nat) \<Rightarrow> ('k \<times> real) list \<Rightarrow> ('k \<times> real) list" where
  "sort_values_desc rank t = rev (sort_key (\<lambda>p. (snd p, rank p)) t)"

text \<open>\<^verbatim>\<open>filtered_df.groupby(by=["City"], as_index=False)["Sales"].sum()
  .sort_values(by="Sales", ascending=False).head(10)\<close>\<close>

definition top_cities :: "(string \<times> real \<Rightarrow> nat) \<Rightarrow> 'd frame \<Rightarrow> (string \<times> real) list" where
  "top_cities rank df = take 10 (sort_values_desc rank (groupby_sum City Sales df))"

definition top_products :: "(string \<times> real \<Rightarrow> nat) \<Rightarrow> 'd frame \<Rightarrow> (string \<times> real) list" where
  "top_products rank df = take 10 (sort_values_desc rank (groupby_sum Product_Name Profit df))"

subsection \<open>Monthly time series\<close>

text \<open>\<^verbatim>\<open>dt.to_period("M")\<close>: the year and the month of a timestamp.\<close>

fun to_period_M :: "timestamp \<Rightarrow> nat \<times> nat" where
  "to_period_M (y, m, d, t) = (y, m)"

definition month_abbr :: "nat \<Rightarrow> string" where
  "month_abbr m =
     [''Jan'', ''Feb'', ''Mar'', ''Apr'', ''May'', ''Jun'',
      ''Jul'', ''Aug'', ''Sep'', ''Oct'', ''Nov'', ''Dec''] ! (m - 1)"

text \<open>The decimal digits of a number (\<^verbatim>\<open>%Y\<close>; the years of a pandas timestamp have
  four digits).\<close>

function decimal :: "nat \<Rightarrow> string" where
  "decimal n =
     (if n < 10 then [''0123456789'' ! n]
      else decimal (n div 10) @ [''0123456789'' ! (n mod 10)])"
  by pat_completeness auto
termination
  by (relation "measure id") auto

text \<open>\<^verbatim>\<open>strftime("%Y : %b")\<close> on a monthly period.\<close>

fun strftime_Y_b :: "nat \<times> nat \<Rightarrow> string" where
  "strftime_Y_b (y, m) = decimal y @ '' : '' @ month_abbr m"

text \<open>\<^verbatim>\<open>filtered_df.groupby(filtered_df["month_year"].dt.strftime("%Y : %b"))["Sales"]
  .sum()\<close> with the index reset: the group key is the formatted label.\<close>

definition linechart :: "timestamp frame \<Rightarrow> (string \<times> real) list" where
  "linechart df = groupby_sum (\<lambda>r. strftime_Y_b (to_period_M (Order_Date r))) Sales df"

subsection \<open>Monthly sub-category pivot\<close>

definition month_name :: "timestamp \<Rightarrow> string" where
  "month_name ts =
     [''January'', ''February'', ''March'', ''April'', ''May'', ''June'', ''July'',
      ''August'', ''September'', ''October'', ''November'', ''December'']
       ! (fst (snd ts) - 1)"

text \<open>\<^verbatim>\<open>pd.pivot_table(data=filtered_df, values="Sales", index=["Sub-Category"],
  columns="month")\<close>. The call passes no \<^verbatim>\<open>aggfunc\<close>, so pandas aggregates each cell
  with its default, the mean. A combination with no row is NaN (\<open>None\<close>).\<close>

definition pivot_cell :: "timestamp frame \<Rightarrow> string \<Rightarrow> string \<Rightarrow> real option" where
  "pivot_cell df sc m =
     (let xs = map (\<lambda>(i, r). Sales r)
                 (filter (\<lambda>(i, r). Sub_Category r = sc \<and> month_name (Order_Date r) = m) df)
      in if xs = [] then None else Some (sum_list xs / real (length xs)))"

definition sub_category_year :: "timestamp frame \<Rightarrow> (string \<times> (string \<times> real option) list) list" where
  "sub_category_year df =
     map (\<lambda>sc. (sc, map (\<lambda>m. (m, pivot_cell df sc m))
                     (group_keys (\<lambda>r. month_name (Order_Date r)) df)))
       (group_keys Sub_Category df)"

text \<open>A row for the examples below: the cells that matter there, the rest fixed.\<close>

definition sample_row ::
  "'d \<Rightarrow> string \<Rightarrow> string \<Rightarrow> string \<Rightarrow> string \<Rightarrow> real \<Rightarrow> real \<Rightarrow> 'd row" where
  "sample_row d rg st ct sc s p =
     \<lparr>Order_Date = d, Region = rg, State = st, City = ct, Category = ''Furniture'',
      Sub_Category = sc, Segment = ''Consumer'', Sales = s, Profit = p, Quantity = 1,
      Order_ID = ''O1'', Customer_ID = ''C1'', Product_Name = ''P1''\<rparr>"

text \<open>The rows a selection admits: every constraint whose selection is not empty holds.\<close>

definition selected :: "string list \<Rightarrow> string list \<Rightarrow> string list \<Rightarrow> 'd row \<Rightarrow> bool" where
  "selected R S C r \<longleftrightarrow>
     (R = [] \<or> Region r \<in> set R) \<and> (S = [] \<or> State r \<in> set S) \<and> (C = [] \<or> City r \<in> set C)"

text \<open>Example data. The labels of \<open>sample_df\<close> have gaps, as after dropped rows, and
  California occurs under two regions.\<close>

definition sample_df :: "timestamp frame" where
  "sample_df =
     [(0, sample_row (2023, 2, 10, 0) ''West'' ''California'' ''Los Angeles'' ''Chairs'' 10 2),
      (2, sample_row (2023, 4, 5, 0) ''East'' ''California'' ''Fresno'' ''Tables'' 30 0),
      (5, sample_row (2023, 12, 1, 0) ''West'' ''Oregon'' ''Portland'' ''Chairs'' 20 (-5)),
      (6, sample_row (2024, 1, 15, 0) ''West'' ''California'' ''Fresno'' ''Chairs'' 40 8)]"

definition tie_df :: "timestamp frame" where
  "tie_df =
     [(0, sample_row (2023, 1, 5, 0) ''West'' ''Nevada'' ''Zurich'' ''Chairs'' 10 1),
      (1, sample_row (2023, 1, 6, 0) ''West'' ''Texas'' ''Austin'' ''Chairs'' 10 1)]"

definition tie_df2 :: "timestamp frame" where
  "tie_df2 =
     [(0, sample_row (2023, 1, 6, 0) ''West'' ''Texas'' ''Austin'' ''Chairs'' 10 1),
      (1, sample_row (2023, 1, 5, 0) ''West'' ''Nevada'' ''Zurich'' ''Chairs'' 10 1)]"

definition mean_df :: "timestamp frame" where
  "mean_df =
     [(0, sample_row (2023, 2, 10, 0) ''West'' ''California'' ''Fresno'' ''Chairs'' 10 2),
      (1, sample_row (2024, 2, 20, 0) ''West'' ''California'' ''Fresno'' ''Chairs'' 30 3)]"

definition months_df :: "timestamp frame" where
  "months_df =
     [(0, sample_row (2023, 2, 10, 0) ''West'' ''California'' ''Fresno'' ''Chairs'' 10 2),
      (1, sample_row (2023, 4, 5, 0) ''West'' ''California'' ''Fresno'' ''Chairs'' 30 3)]"




text \<open>The tie clause of the specification of the top-10 table, in its words: rows with equal
  summed sales appear in the order in which their cities first occur in the input.\<close>

definition first_position :: "'a list \<Rightarrow> 'a \<Rightarrow> nat" where
  "first_position xs x = length (takeWhile (\<lambda>y. y \<noteq> x) xs)"

definition spec_ties_in_input_order :: "'d frame \<Rightarrow> (string \<times> real) list \<Rightarrow> bool" where
  "spec_ties_in_input_order df out \<longleftrightarrow>
     sorted_wrt (\<lambda>a b. snd a = snd b \<longrightarrow>
         first_position (map (\<lambda>(i, r). City r) df) (fst a)
           < first_position (map (\<lambda>(i, r). City r) df) (fst b)) out"

definition sample_parse :: "string \<Rightarrow> timestamp option" where
  "sample_parse s =
     (if s = ''2023-02-10'' then Some (2023, 2, 10, 0)
      else if s = ''2023-04-05'' then Some (2023, 4, 5, 0)
      else None)"

definition sample_upload :: "string row list" where
  "sample_upload =
     [sample_row ''2023-02-10'' ''West'' ''California'' ''Fresno'' ''Chairs'' 10 2,
      sample_row ''not a date'' ''West'' ''California'' ''Fresno'' ''Chairs'' 20 3,
      sample_row ''2023-04-05'' ''East'' ''Ohio'' ''Akron'' ''Tables'' 30 4]"

section \<open>Boolean masks and label alignment\<close>

lemma index_column [simp]: "map fst (column f df) = map fst df"
  by (induction df) (auto simp: column_def)

lemma index_isin [simp]: "map fst (isin vals s) = map fst s"
  by (induction s) (auto simp: isin_def)

lemma index_series_ge [simp]: "map fst (series_ge s v) = map fst s"
  by (induction s) (auto simp: series_ge_def)

lemma index_series_le [simp]: "map fst (series_le s v) = map fst s"
  by (induction s) (auto simp: series_le_def)

lemma lookup_fill_Cons:
  "lookup_fill ((j, b) # s) i = (if i = j then b else lookup_fill s i)"
  by (simp add: lookup_fill_def)

lemma lookup_fill_absent: "i \<notin> set (map fst s) \<Longrightarrow> lookup_fill s i = False"
  by (induction s) (auto simp: lookup_fill_Cons lookup_fill_def)

lemma lookup_fill_zip:
  "map fst a = map fst b \<Longrightarrow>
   lookup_fill (map (\<lambda>((i, x), (j, y)). (i, x \<and> y)) (zip a b)) k
     = (lookup_fill a k \<and> lookup_fill b k)"
proof (induction a arbitrary: b)
  case Nil
  then show ?case by (simp add: lookup_fill_def)
next
  case (Cons p a)
  then obtain q b' where b: "b = q # b'" by (cases b) auto
  with Cons.prems have "fst p = fst q" "map fst a = map fst b'" by auto
  with Cons.IH [of b'] b show ?case
    by (cases p; cases q) (auto simp: lookup_fill_Cons)
qed

lemma lookup_fill_tabulate:
  "lookup_fill (map (\<lambda>i. (i, f i)) ks) k = (k \<in> set ks \<and> f k)"
  by (induction ks) (auto simp: lookup_fill_Cons lookup_fill_def)

lemma lookup_fill_series_and:
  "lookup_fill (series_and a b) k = (lookup_fill a k \<and> lookup_fill b k)"
proof (cases "map fst a = map fst b")
  case True
  then show ?thesis by (simp add: series_and_def lookup_fill_zip)
next
  case False
  have "k \<notin> set (map fst a) \<union> set (map fst b) \<Longrightarrow> \<not> lookup_fill a k"
    using lookup_fill_absent [of k a] by simp
  with False show ?thesis
    by (auto simp: series_and_def lookup_fill_tabulate)
qed

lemma index_series_and:
  "set (map fst (series_and a b)) = set (map fst a) \<union> set (map fst b)"
proof (cases "map fst a = map fst b")
  case True
  then have "length a = length b" by (metis length_map)
  then have "map fst (map (\<lambda>((i, x), (j, y)). (i, x \<and> y)) (zip a b)) = map fst a"
    by (induction a b rule: list_induct2) auto
  with True show ?thesis by (simp add: series_and_def)
next
  case False
  then show ?thesis by (auto simp: series_and_def comp_def)
qed

lemma label_in_index: "(i, r) \<in> set df \<Longrightarrow> i \<in> fst ` set df"
  by force

lemma lookup_fill_column:
  "distinct (map fst df) \<Longrightarrow> (i, r) \<in> set df \<Longrightarrow>
   lookup_fill (isin vals (column f df)) i = (f r \<in> set vals)"
  by (induction df)
    (auto simp: isin_def column_def lookup_fill_Cons dest: label_in_index split: if_splits)

lemma getitem_bool_positional:
  "distinct (map fst df) \<Longrightarrow> map fst key = map fst df \<Longrightarrow>
   map fst (filter (\<lambda>(p, k). snd k) (zip df key)) = filter (\<lambda>(i, r). lookup_fill key i) df"
proof (induction df arbitrary: key)
  case Nil
  then show ?case by simp
next
  case (Cons p df)
  then obtain q key' where key: "key = q # key'" by (cases key) auto
  obtain i r where p: "p = (i, r)" by (cases p)
  obtain j b where q: "q = (j, b)" by (cases q)
  from Cons.prems key p q have ij: "j = i" and idx: "map fst key' = map fst df"
    and fresh: "i \<notin> fst ` set df" and dist: "distinct (map fst df)" by auto
  have "filter (\<lambda>(l, r). lookup_fill key l) df = filter (\<lambda>(l, r). lookup_fill key' l) df"
    using fresh by (intro filter_cong) (auto simp: key q ij lookup_fill_Cons dest: label_in_index split: if_splits)
  with Cons.IH [OF dist idx] show ?case
    by (simp add: key p q ij lookup_fill_Cons)
qed

lemma getitem_bool_lookup:
  assumes "distinct (map fst df)" and "set (map fst df) \<subseteq> set (map fst key)"
  shows "getitem_bool df key = Inr (filter (\<lambda>(i, r). lookup_fill key i) df)"
proof (cases "map fst key = map fst df")
  case True
  with assms(1) show ?thesis
    by (simp add: getitem_bool_def getitem_bool_positional)
next
  case False
  have present: "\<And>i. i \<in> set (map fst df) \<Longrightarrow> map_of key i \<noteq> None"
    using assms(2) by (auto simp: map_of_eq_None_iff)
  then have "\<not> list_ex (\<lambda>i. map_of key i = None) (map fst df)"
    by (auto simp: list_ex_iff)
  moreover have "filter (\<lambda>(i, r). map_of key i = Some True) df
      = filter (\<lambda>(i, r). lookup_fill key i) df"
    by (intro filter_cong) (auto simp: lookup_fill_def split: option.splits)
  ultimately show ?thesis using False by (simp add: getitem_bool_def)
qed

section \<open>The location filter in closed form\<close>

lemma getitem_bool_isin:
  assumes "distinct (map fst df)"
  shows "getitem_bool df (isin vals (column f df)) = Inr (filter (\<lambda>(i, r). f r \<in> set vals) df)"
proof -
  have "filter (\<lambda>(i, r). lookup_fill (isin vals (column f df)) i) df
      = filter (\<lambda>(i, r). f r \<in> set vals) df"
    using assms by (intro filter_cong) (auto simp: lookup_fill_column)
  with assms show ?thesis by (simp add: getitem_bool_lookup)
qed

lemma getitem_bool_cross:
  assumes "distinct (map fst df)" and "distinct (map fst d3)" and "set d3 \<subseteq> set df"
  shows "getitem_bool d3 (series_and (isin v1 (column f df)) (isin v2 (column g d3)))
           = Inr (filter (\<lambda>(i, r). f r \<in> set v1 \<and> g r \<in> set v2) d3)"
proof -
  let ?key = "series_and (isin v1 (column f df)) (isin v2 (column g d3))"
  have "set (map fst d3) \<subseteq> set (map fst ?key)"
    by (simp only: index_series_and index_isin index_column) blast
  then have "getitem_bool d3 ?key = Inr (filter (\<lambda>(i, r). lookup_fill ?key i) d3)"
    using assms(2) by (rule getitem_bool_lookup [rotated])
  moreover have "filter (\<lambda>(i, r). lookup_fill ?key i) d3
      = filter (\<lambda>(i, r). f r \<in> set v1 \<and> g r \<in> set v2) d3"
  proof (intro filter_cong refl)
    fix p assume p: "p \<in> set d3"
    obtain i r where ir: "p = (i, r)" by (cases p)
    with p assms(3) have "(i, r) \<in> set df" "(i, r) \<in> set d3" by auto
    then show "(case p of (i, r) \<Rightarrow> lookup_fill ?key i)
        = (case p of (i, r) \<Rightarrow> f r \<in> set v1 \<and> g r \<in> set v2)"
      using assms(1,2) by (simp add: ir lookup_fill_series_and lookup_fill_column)
  qed
  ultimately show ?thesis by simp
qed

lemma distinct_index_filter:
  "distinct (map fst df) \<Longrightarrow> distinct (map fst (filter P df))"
  by (rule distinct_map_filter)

lemma df2_eq:
  "distinct (map fst df) \<Longrightarrow>
   df2 R df = Inr (filter (\<lambda>(i, r). R = [] \<or> Region r \<in> set R) df)"
  by (simp add: df2_def getitem_bool_isin)

lemma df3_eq:
  "distinct (map fst d2) \<Longrightarrow>
   df3 S d2 = Inr (filter (\<lambda>(i, r). S = [] \<or> State r \<in> set S) d2)"
  by (simp add: df3_def getitem_bool_isin)

lemma df4_eq:
  "distinct (map fst d3) \<Longrightarrow>
   df4 C d3 = Inr (filter (\<lambda>(i, r). C = [] \<or> City r \<in> set C) d3)"
  by (simp add: df4_def getitem_bool_isin)

lemma filter_branches_eq:
  assumes dist: "distinct (map fst df)"
    and d3: "d3 = filter (\<lambda>(i, r). (R = [] \<or> Region r \<in> set R) \<and> (S = [] \<or> State r \<in> set S)) df"
  shows "filter_branches R S C df d3 = Inr (filter (\<lambda>(i, r). selected R S C r) df)"
proof -
  have dist3: "distinct (map fst d3)" and sub: "set d3 \<subseteq> set df"
    using dist by (auto simp: d3 distinct_map_filter)
  note cross = getitem_bool_cross [OF dist dist3 sub]
  show ?thesis
  proof (cases "S \<noteq> [] \<and> C \<noteq> []")
    case True
    then have "filter_branches R S C df d3
        = Inr (filter (\<lambda>(i, r). State r \<in> set S \<and> City r \<in> set C) d3)"
      by (simp add: filter_branches_def cross)
    also have "filter (\<lambda>(i, r). State r \<in> set S \<and> City r \<in> set C) d3
        = filter (\<lambda>(i, r). selected R S C r) df"
      using True unfolding d3 filter_filter
      by (intro filter_cong) (auto simp: selected_def)
    finally show ?thesis .
  next
    case False
    show ?thesis
    proof (cases "R \<noteq> [] \<and> C \<noteq> []")
      case True
      with False have S: "S = []" by simp
      from True S have "filter_branches R S C df d3
          = Inr (filter (\<lambda>(i, r). Region r \<in> set R \<and> City r \<in> set C) d3)"
        by (simp add: filter_branches_def cross)
      also have "filter (\<lambda>(i, r). Region r \<in> set R \<and> City r \<in> set C) d3
          = filter (\<lambda>(i, r). selected R S C r) df"
        using True S unfolding d3 filter_filter
        by (intro filter_cong) (auto simp: selected_def)
      finally show ?thesis .
    next
      case RC: False
      show ?thesis
      proof (cases "R \<noteq> [] \<and> S \<noteq> []")
        case True
        with False have C: "C = []" by simp
        from True C have "filter_branches R S C df d3
            = Inr (filter (\<lambda>(i, r). Region r \<in> set R \<and> State r \<in> set S) d3)"
          by (simp add: filter_branches_def cross)
        also have "filter (\<lambda>(i, r). Region r \<in> set R \<and> State r \<in> set S) d3
            = filter (\<lambda>(i, r). selected R S C r) df"
          using True C unfolding d3 filter_filter
          by (intro filter_cong) (auto simp: selected_def)
        finally show ?thesis .
      next
        case RS: False
        from False RC RS consider
            "R = []" "S = []" "C = []"
          | "R \<noteq> []" "S = []" "C = []"
          | "R = []" "S \<noteq> []" "C = []"
          | "R = []" "S = []" "C \<noteq> []"
          by blast
        then show ?thesis
        proof cases
          case 1
          then show ?thesis by (simp add: filter_branches_def selected_def)
        next
          case 2
          then show ?thesis
            by (simp add: filter_branches_def selected_def getitem_bool_isin [OF dist])
        next
          case 3
          then show ?thesis
            by (simp add: filter_branches_def selected_def getitem_bool_isin [OF dist])
        next
          case 4
          then have "d3 = df" by (simp add: d3)
          with 4 show ?thesis
            by (simp add: filter_branches_def selected_def getitem_bool_isin [OF dist])
        qed
      qed
    qed
  qed
qed

lemma filtered_df_eq:
  assumes "distinct (map fst df)"
  shows "filtered_df R S C df = Inr (filter (\<lambda>(i, r). selected R S C r) df)"
proof -
  let ?d2 = "filter (\<lambda>(i, r). R = [] \<or> Region r \<in> set R) df"
  let ?d3 = "filter (\<lambda>(i, r). S = [] \<or> State r \<in> set S) ?d2"
  have dist2: "distinct (map fst ?d2)" and dist3: "distinct (map fst ?d3)"
    using assms by (simp_all add: distinct_map_filter)
  have d3: "?d3 = filter (\<lambda>(i, r). (R = [] \<or> Region r \<in> set R) \<and> (S = [] \<or> State r \<in> set S)) df"
    unfolding filter_filter by (intro filter_cong) auto
  show ?thesis
    unfolding filtered_df_def
    by (simp only: df2_eq [OF assms] df3_eq [OF dist2] df4_eq [OF dist3] sum.case
        filter_branches_eq [OF assms d3])
qed

lemma spec_simplified_filter_eq:
  "spec_simplified_filter R S C df = filter (\<lambda>(i, r). selected R S C r) df"
  unfolding spec_simplified_filter_def
  by (intro filter_cong) (auto simp: active_constraints_def selected_def)

lemma series_and_same_index:
  "series_and (map (\<lambda>(i, r). (i, p r)) df) (map (\<lambda>(i, r). (i, q r)) df)
     = map (\<lambda>(i, r). (i, p r \<and> q r)) df"
proof -
  have "map (\<lambda>((i, x), (j, y)). (i, x \<and> y))
          (zip (map (\<lambda>(i, r). (i, p r)) df) (map (\<lambda>(i, r). (i, q r)) df))
        = map (\<lambda>(i, r). (i, p r \<and> q r)) df"
    by (induction df) auto
  moreover have "map fst (map (\<lambda>(i, r). (i, p r)) df) = map fst (map (\<lambda>(i, r). (i, q r)) df)"
    by (induction df) auto
  ultimately show ?thesis by (simp add: series_and_def)
qed

lemma getitem_bool_same_index:
  "getitem_bool df (map (\<lambda>(i, r). (i, p r)) df) = Inr (filter (\<lambda>(i, r). p r) df)"
proof -
  have "map fst (filter (\<lambda>(x, k). snd k) (zip df (map (\<lambda>(i, r). (i, p r)) df)))
        = filter (\<lambda>(i, r). p r) df"
    by (induction df) auto
  moreover have "map fst (map (\<lambda>(i, r). (i, p r)) df) = map fst df"
    by (induction df) auto
  ultimately show ?thesis by (simp add: getitem_bool_def)
qed

lemma date_slice_eq:
  "date_slice date1 date2 df
     = Inr (filter (\<lambda>(i, r). date1 \<le> Order_Date r \<and> Order_Date r \<le> date2) df)"
proof -
  have ge: "series_ge (column Order_Date df) date1 = map (\<lambda>(i, r). (i, date1 \<le> Order_Date r)) df"
    by (induction df) (auto simp: series_ge_def column_def)
  have le: "series_le (column Order_Date df) date2 = map (\<lambda>(i, r). (i, Order_Date r \<le> date2)) df"
    by (induction df) (auto simp: series_le_def column_def)
  show ?thesis
    by (simp only: date_slice_def ge le series_and_same_index getitem_bool_same_index)
qed

section \<open>Grouping, sorting and preprocessing\<close>



lemma length_groupby_sum:
  "length (groupby_sum key val df) = card (key ` snd ` set df)"
proof -
  have "set (map (\<lambda>(i, r). key r) df) = key ` snd ` set df" by force
  then show ?thesis
    by (simp add: groupby_sum_def group_keys_def length_remdups_card_conv)
qed

lemma sort_values_desc_sorted: "sorted_wrt (\<lambda>a b. snd b \<le> snd a) (sort_values_desc rank t)"
proof -
  have "sorted (map (\<lambda>p. (snd p, rank p)) (sort_key (\<lambda>p. (snd p, rank p)) t))"
    by (rule sorted_sort_key)
  then have "sorted_wrt (\<lambda>a b. (snd a, rank a) \<le> (snd b, rank b)) (sort_key (\<lambda>p. (snd p, rank p)) t)"
    by (simp add: sorted_wrt_map)
  then have "sorted_wrt (\<lambda>a b. snd a \<le> snd b) (sort_key (\<lambda>p. (snd p, rank p)) t)"
    by (rule sorted_wrt_mono_rel [rotated]) auto
  then show ?thesis
    by (simp add: sort_values_desc_def sorted_wrt_rev)
qed

lemma set_sort_values_desc: "set (sort_values_desc rank t) = set t"
  by (simp add: sort_values_desc_def)

lemma length_sort_values_desc: "length (sort_values_desc rank t) = length t"
  by (simp add: sort_values_desc_def)

lemma first_position_nth:
  "distinct xs \<Longrightarrow> i < length xs \<Longrightarrow> first_position xs (xs ! i) = i"
proof (induction xs arbitrary: i)
  case Nil
  then show ?case by simp
next
  case (Cons x xs)
  show ?case
  proof (cases i)
    case 0
    then show ?thesis by (simp add: first_position_def)
  next
    case (Suc j)
    with Cons.prems have "xs ! j \<in> set xs" "x \<notin> set xs" by auto
    then have "x \<noteq> xs ! j" by auto
    with Cons Suc show ?thesis by (simp add: first_position_def)
  qed
qed

text \<open>Every descending arrangement of the rows of a table is what the sort returns for some
  ranking: the parameter leaves every order of the equal rows open.\<close>

lemma sort_values_desc_any_tie_order:
  fixes t t' :: "('k \<times> real) list"
  assumes dist: "distinct t" and dist': "distinct t'" and perm: "set t' = set t"
    and desc: "sorted_wrt (\<lambda>a b. snd b \<le> snd a) t'"
  shows "\<exists>rank. sort_values_desc rank t = t'"
proof -
  let ?u = "rev t'"
  let ?rank = "first_position ?u"
  let ?f = "\<lambda>p. (snd p, ?rank p)"
  have distu: "distinct ?u" using dist' by simp
  have asc: "sorted_wrt (\<lambda>a b. snd a \<le> snd b) ?u" using desc by (simp add: sorted_wrt_rev)
  have rank_nth: "\<And>i. i < length ?u \<Longrightarrow> ?rank (?u ! i) = i"
    using distu by (rule first_position_nth)
  have strict: "sorted_wrt (\<lambda>a b. ?f a < ?f b) ?u"
  proof (subst sorted_wrt_iff_nth_less, intro allI impI)
    fix i j assume ij: "i < j" "j < length ?u"
    then have "snd (?u ! i) \<le> snd (?u ! j)"
      using asc by (auto simp: sorted_wrt_iff_nth_less)
    moreover have "?rank (?u ! i) < ?rank (?u ! j)"
      using ij by (simp add: rank_nth)
    ultimately show "?f (?u ! i) < ?f (?u ! j)" by auto
  qed
  then have "sorted_wrt (<) (map ?f ?u)" by (simp only: sorted_wrt_map)
  then have su: "sorted (map ?f ?u)" and du: "distinct (map ?f ?u)"
    by (simp_all only: strict_sorted_iff)
  have sets: "set (sort_key ?f t) = set ?u"
    using perm by simp
  have inj: "inj_on ?f (set ?u)"
    using du by (simp add: distinct_map)
  have ds: "distinct (map ?f (sort_key ?f t))"
    using dist inj sets by (simp add: distinct_map)
  have "sort_key ?f t = ?u"
    by (rule map_sorted_distinct_set_unique [of ?f])
       (use inj sets su du ds in \<open>simp_all add: sorted_sort_key\<close>)
  then have "sort_values_desc ?rank t = t'" by (simp add: sort_values_desc_def)
  then show ?thesis by blast
qed

lemma groupby_sum_keys_sorted: "sorted (map fst (groupby_sum key val df))"
  by (simp add: groupby_sum_def group_keys_def comp_def)

lemma linechart_sorted_by_label: "sorted (map fst (linechart df))"
  unfolding linechart_def by (rule groupby_sum_keys_sorted)

lemma Order_Date_with_order_date [simp]: "Order_Date (with_order_date r d) = d"
  by (simp add: with_order_date_def)

lemma with_order_date_twice [simp]:
  "with_order_date (with_order_date r x) d = with_order_date r d"
  by (simp add: with_order_date_def)



lemma index_preprocess:
  "map fst (preprocess parse df) = map fst (filter (\<lambda>(i, r). parse (Order_Date r) \<noteq> None) df)"
  by (induction df) (auto simp: preprocess_def to_datetime_coerce_def split: option.splits)

lemma index_read_table: "distinct (map fst (read_table rs))"
  by (simp add: read_table_def)

lemma distinct_index_preprocess:
  "distinct (map fst df) \<Longrightarrow> distinct (map fst (preprocess parse df))"
  by (simp add: index_preprocess distinct_map_filter)

section \<open>Float64 sums without rounding\<close>


lemma f64_frac_bits_bound: "n \<le> 1074 \<Longrightarrow> f64_frac_bits n a \<le> 1074"
  by (induction n a rule: f64_frac_bits.induct) (subst f64_frac_bits.simps, auto)











lemma tie_tables:
  "groupby_sum City Sales tie_df = [(''Austin'', 10), (''Zurich'', 10)]"
  "groupby_sum City Sales tie_df2 = [(''Austin'', 10), (''Zurich'', 10)]"
  by (simp_all add: groupby_sum_def group_keys_def tie_df_def tie_df2_def sample_row_def)

section \<open>The claims\<close>

text \<open>Claim C1. On a base table with unique index labels, for every selection of regions,
  states and cities (each possibly empty), the eight-branch construction of
  \<^verbatim>\<open>filtered_df\<close> succeeds and returns exactly the rows, in order, that the
  simplified filter returns: the base table filtered by the conjunction of the constraints whose
  selection is not empty.\<close>

theorem filtered_df_refines_simplified:
  "distinct (map fst df) \<Longrightarrow> filtered_df R S C df = Inr (spec_simplified_filter R S C df)"
  by (simp add: filtered_df_eq spec_simplified_filter_eq)

theorem filtered_df_refines_simplified_witness:
  "distinct (map fst sample_df)
   \<and> filtered_df [''West''] [''California''] [] sample_df
       = Inr (spec_simplified_filter [''West''] [''California''] [] sample_df)"
  using filtered_df_refines_simplified [of sample_df "[''West'']" "[''California'']" "[]"]
  by (simp add: sample_df_def)

text \<open>Claim C7. The date-range slice keeps exactly the rows whose order date lies between the
  two bounds, both inclusive, and never fails; the bounds are not compared with each other, and
  when the lower bound is after the upper bound the result is the empty table.\<close>

theorem date_slice_inclusive:
  "date_slice lower upper df
     = Inr (filter (\<lambda>(i, r). lower \<le> Order_Date r \<and> Order_Date r \<le> upper) df)
   \<and> (upper < lower \<longrightarrow> date_slice lower upper df = Inr [])"
  by (auto simp: date_slice_eq filter_empty_conv)

theorem date_slice_inclusive_witness:
  "((2023, 12, 1, 0) :: timestamp) < (2024, 3, 1, 0)
   \<and> date_slice (2024, 3, 1, 0) (2023, 12, 1, 0) sample_df = Inr []
   \<and> date_slice (2023, 4, 5, 0) (2023, 12, 1, 0) sample_df
       = Inr [sample_df ! 1, sample_df ! 2]"
  using date_slice_inclusive [of "(2024, 3, 1, 0)" "(2023, 12, 1, 0)" sample_df]
    date_slice_inclusive [of "(2023, 4, 5, 0)" "(2023, 12, 1, 0)" sample_df]
  by (simp add: sample_df_def sample_row_def)

text \<open>Claim C10. For every uploaded table, date range and selection, the date slice and the
  filter construction both succeed, and every row of the final filtered table is a row of the
  date-sliced base table with its order date inside the range; this includes the branches that
  select from \<^verbatim>\<open>df3\<close> with masks computed over \<^verbatim>\<open>df\<close>.\<close>

theorem filtered_rows_within_base:
  "\<exists>base out.
     date_slice date1 date2 (preprocess parse (read_table upload)) = Inr base
     \<and> filtered_df R S C base = Inr out
     \<and> set out \<subseteq> set base
     \<and> (\<forall>(i, r) \<in> set out. date1 \<le> Order_Date r \<and> Order_Date r \<le> date2)"
proof -
  let ?df0 = "preprocess parse (read_table upload)"
  let ?base = "filter (\<lambda>(i, r). date1 \<le> Order_Date r \<and> Order_Date r \<le> date2) ?df0"
  let ?out = "filter (\<lambda>(i, r). selected R S C r) ?base"
  have "distinct (map fst ?df0)"
    by (rule distinct_index_preprocess) (rule index_read_table)
  then have "distinct (map fst ?base)"
    by (rule distinct_map_filter)
  then have "filtered_df R S C ?base = Inr ?out"
    by (rule filtered_df_eq)
  moreover have "date_slice date1 date2 ?df0 = Inr ?base"
    by (rule date_slice_eq)
  moreover have "set ?out \<subseteq> set ?base" by auto
  moreover have "\<forall>(i, r) \<in> set ?out. date1 \<le> Order_Date r \<and> Order_Date r \<le> date2"
    by auto
  ultimately show ?thesis by blast
qed

theorem filtered_rows_within_base_witness:
  "(\<exists>base out.
     date_slice (2023, 1, 1, 0) (2023, 12, 31, 0) (preprocess sample_parse (read_table sample_upload))
       = Inr base
     \<and> filtered_df [''West''] [] [''Fresno''] base = Inr out
     \<and> set out \<subseteq> set base
     \<and> (\<forall>(i, r) \<in> set out. (2023, 1, 1, 0) \<le> Order_Date r \<and> Order_Date r \<le> (2023, 12, 31, 0)))
   \<and> map fst (preprocess sample_parse (read_table sample_upload)) = [0, 2]"
  using filtered_rows_within_base
    [of "(2023, 1, 1, 0)" "(2023, 12, 31, 0)" sample_parse sample_upload "[''West'']" "[]" "[''Fresno'']"]
  by (simp add: index_preprocess read_table_def sample_upload_def sample_parse_def sample_row_def
      upt_rec)






text \<open>Claim C2. The pivot call passes no aggregation function, so each cell holds the mean of
  the sales of its rows, not their sum: with two Chairs rows in February, of sales 10 and 30,
  the cell is 20 while the sum of the sales is 40.\<close>

theorem pivot_cell_is_mean:
  "sub_category_year mean_df = [(''Chairs'', [(''February'', Some 20)])]
   \<and> sum_list (map (\<lambda>(i, r). Sales r)
        (filter (\<lambda>(i, r). Sub_Category r = ''Chairs'' \<and> month_name (Order_Date r) = ''February'')
           mean_df)) = 40"
  by (simp add: sub_category_year_def pivot_cell_def group_keys_def mean_df_def sample_row_def
      month_name_def Let_def)

text \<open>Claim C3. The time series is grouped by the formatted label, and the groups come out in
  the order of the labels as text: with one row in February 2023 and one in April 2023, April
  comes first.\<close>

theorem linechart_label_order:
  "linechart months_df = [(''2023 : Apr'', 30), (''2023 : Feb'', 10)]"
  by (simp add: linechart_def groupby_sum_def group_keys_def months_df_def sample_row_def
      month_abbr_def)

text \<open>Claim C4. On a filtered table with no rows the sums, the profit margin and the customer
  count are 0 and the aggregate tables are empty, but the average order value is NaN on both
  of its paths: neither the mean of the empty per-order sums nor the division by the row count
  is guarded.\<close>

theorem empty_table_kpis:
  "total_sales ([] :: timestamp frame) = 0 \<and> total_profit ([] :: timestamp frame) = 0
   \<and> total_quantity ([] :: timestamp frame) = 0 \<and> profit_margin ([] :: timestamp frame) = 0
   \<and> unique_customers True ([] :: timestamp frame) = 0
   \<and> unique_customers False ([] :: timestamp frame) = 0
   \<and> category_df ([] :: timestamp frame) = [] \<and> top_cities rank ([] :: timestamp frame) = []
   \<and> segment_df ([] :: timestamp frame) = [] \<and> top_products rank ([] :: timestamp frame) = []
   \<and> linechart [] = [] \<and> sub_category_year [] = []
   \<and> avg_order_value True ([] :: timestamp frame) = NaN
   \<and> avg_order_value False ([] :: timestamp frame) = NaN"
  by (simp add: total_sales_def total_profit_def total_quantity_def profit_margin_def
      unique_customers_def category_df_def top_cities_def segment_df_def top_products_def
      linechart_def sub_category_year_def
      avg_order_value_def groupby_sum_def group_keys_def sort_values_desc_def series_mean_def
      np_divide_def)




text \<open>Claim C6, as amended. For every filtered table, whatever order the sort leaves among equal
  values, the top-10 cities table has exactly min(10, number of distinct cities) rows, each of
  them a row of the per-city sales totals, and is sorted in descending order of summed
  sales.\<close>

theorem top_cities_length_sorted:
  "length (top_cities rank df) = min 10 (card (City ` snd ` set df))
   \<and> sorted_wrt (\<lambda>a b. snd b \<le> snd a) (top_cities rank df)
   \<and> set (top_cities rank df) \<subseteq> set (groupby_sum City Sales df)"
proof (intro conjI)
  show "length (top_cities rank df) = min 10 (card (City ` snd ` set df))"
    by (simp add: top_cities_def length_sort_values_desc length_groupby_sum min.commute)
  show "sorted_wrt (\<lambda>a b. snd b \<le> snd a) (top_cities rank df)"
    unfolding top_cities_def by (rule sorted_wrt_take) (rule sort_values_desc_sorted)
  show "set (top_cities rank df) \<subseteq> set (groupby_sum City Sales df)"
    unfolding top_cities_def
    using set_take_subset [of 10 "sort_values_desc rank (groupby_sum City Sales df)"]
    by (simp add: set_sort_values_desc)
qed

theorem top_cities_length_sorted_witness:
  "top_cities (\<lambda>p. 0) sample_df = [(''Fresno'', 70), (''Portland'', 20), (''Los Angeles'', 10)]
   \<and> length (top_cities (\<lambda>p. 0) sample_df) = min 10 (card (City ` snd ` set sample_df))
   \<and> sorted_wrt (\<lambda>a b. snd b \<le> snd a) (top_cities (\<lambda>p. 0) sample_df)"
proof -
  have "top_cities (\<lambda>p. 0) sample_df = [(''Fresno'', 70), (''Portland'', 20), (''Los Angeles'', 10)]"
    by (simp add: top_cities_def sort_values_desc_def groupby_sum_def group_keys_def
        sample_df_def sample_row_def)
  with top_cities_length_sorted [of "\<lambda>p. 0" sample_df] show ?thesis by blast
qed

text \<open>Claim C6 as stated fails on ties. One input lists Zurich before Austin, the other Austin
  before Zurich, both cities with sales 10. Grouping hands the sort the same table for both, so
  the top-10 table is the same for both, and whatever order it has it is not the input order
  of both.\<close>

theorem top_cities_tie_counterexample:
  "map (\<lambda>(i, r). City r) tie_df = [''Zurich'', ''Austin'']
   \<and> map (\<lambda>(i, r). City r) tie_df2 = [''Austin'', ''Zurich'']
   \<and> groupby_sum City Sales tie_df = [(''Austin'', 10), (''Zurich'', 10)]
   \<and> groupby_sum City Sales tie_df2 = [(''Austin'', 10), (''Zurich'', 10)]
   \<and> (\<forall>rank. top_cities rank tie_df = top_cities rank tie_df2)
   \<and> (\<forall>rank. \<not> (spec_ties_in_input_order tie_df (top_cities rank tie_df)
                  \<and> spec_ties_in_input_order tie_df2 (top_cities rank tie_df2)))"
proof (intro conjI allI)
  show "map (\<lambda>(i, r). City r) tie_df = [''Zurich'', ''Austin'']"
    by (simp add: tie_df_def sample_row_def)
  show "map (\<lambda>(i, r). City r) tie_df2 = [''Austin'', ''Zurich'']"
    by (simp add: tie_df2_def sample_row_def)
  show "groupby_sum City Sales tie_df = [(''Austin'', 10), (''Zurich'', 10)]"
    by (rule tie_tables)
  show "groupby_sum City Sales tie_df2 = [(''Austin'', 10), (''Zurich'', 10)]"
    by (rule tie_tables)
next
  fix rank :: "string \<times> real \<Rightarrow> nat"
  show "top_cities rank tie_df = top_cities rank tie_df2"
    by (simp add: top_cities_def tie_tables)
next
  fix rank :: "string \<times> real \<Rightarrow> nat"
  have cities: "map (\<lambda>(i, r). City r) tie_df = [''Zurich'', ''Austin'']"
    "map (\<lambda>(i, r). City r) tie_df2 = [''Austin'', ''Zurich'']"
    by (simp_all add: tie_df_def tie_df2_def sample_row_def)
  consider "top_cities rank tie_df = [(''Zurich'', 10), (''Austin'', 10)]"
    | "top_cities rank tie_df = [(''Austin'', 10), (''Zurich'', 10)]"
    by (cases "rank (''Austin'', 10) \<le> rank (''Zurich'', 10)")
       (simp_all add: top_cities_def tie_tables sort_values_desc_def)
  then show "\<not> (spec_ties_in_input_order tie_df (top_cities rank tie_df)
                  \<and> spec_ties_in_input_order tie_df2 (top_cities rank tie_df2))"
  proof cases
    case 1
    then have "top_cities rank tie_df2 = [(''Zurich'', 10), (''Austin'', 10)]"
      by (simp add: top_cities_def tie_tables)
    then show ?thesis
      by (simp add: spec_ties_in_input_order_def cities first_position_def)
  next
    case 2
    then show ?thesis
      by (simp add: spec_ties_in_input_order_def cities first_position_def)
  qed
qed

end
